theory Spec2Isabelle
  imports Complex_Main
begin

section \<open>Text\<close>

text \<open>
  A Python \<open>str\<close> is modelled as a HOL \<open>string\<close> whose characters are the code points
  below 256.  On that range \<open>str.strip()\<close> removes the code points Python counts as
  whitespace (9 to 13, 28 to 32, 133 and 160) and \<open>str.lower()\<close> maps \<open>A\<close> to \<open>Z\<close>
  and the upper-case letters 192 to 222 (but 215, the multiplication sign) to the code
  point 32 higher.  Column labels are texts of the same kind, one character per code
  point, so that \<open>cat[:31]\<close> is \<open>take 31\<close>.  The one exception is the letter U+0142 in
  the two title labels of the fixed metadata list, written as its two UTF-8 bytes:
  metadata labels are only compared with other labels, never sliced, the categories
  being the labels outside that list.
\<close>

definition isspace :: "char \<Rightarrow> bool" where
  "isspace c =
     (let n = (of_char c :: nat)
      in (9 \<le> n \<and> n \<le> 13) \<or> (28 \<le> n \<and> n \<le> 32) \<or> n = 133 \<or> n = 160)"

definition strip :: "string \<Rightarrow> string" where
  "strip s = rev (dropWhile isspace (rev (dropWhile isspace s)))"

definition lower_char :: "char \<Rightarrow> char" where
  "lower_char c =
     (let n = (of_char c :: nat)
      in if (65 \<le> n \<and> n \<le> 90) \<or> (192 \<le> n \<and> n \<le> 222 \<and> n \<noteq> 215)
         then char_of (n + 32) else c)"

definition lower :: "string \<Rightarrow> string" where
  "lower s = map lower_char s"

definition endswith :: "string \<Rightarrow> string \<Rightarrow> bool" where
  "endswith s suffix =
     (length suffix \<le> length s \<and> drop (length s - length suffix) s = suffix)"

text \<open>\<open>str(n)\<close> for an integer: the decimal digits, with a minus sign below zero.\<close>

fun str_nat :: "nat \<Rightarrow> string" where
  "str_nat n =
     (if n < 10 then [char_of (48 + n)]
      else str_nat (n div 10) @ [char_of (48 + n mod 10)])"

declare str_nat.simps [simp del]

definition str_int :: "int \<Rightarrow> string" where
  "str_int i = (if i < 0 then CHR ''-'' # str_nat (nat (- i)) else str_nat (nat i))"


section \<open>Data frames\<close>

text \<open>
  A \<open>pandas.DataFrame\<close> is its list of column labels and its rows, each row holding
  one cell per column position.  Labels may repeat: selecting a label twice yields a
  frame with that column twice.
\<close>

record 'a dataframe =
  columns :: "string list"
  rows :: "'a list list"

datatype error =
    ValueError string
  | InvalidColumnNumbers "int list"
  | KeyError "string list"
  | AttributeError string
  | TypeError string

text \<open>What \<open>df[label]\<close> gives: a column when the label occurs once, a frame when it repeats.\<close>

datatype 'a indexed = Series "'a list" | SubFrame "'a dataframe"

definition positions :: "string list \<Rightarrow> string \<Rightarrow> nat list" where
  "positions cols c = [i \<leftarrow> [0..<length cols]. cols ! i = c]"

definition take_columns :: "'a dataframe \<Rightarrow> nat list \<Rightarrow> 'a dataframe" where
  "take_columns df idx =
     \<lparr>columns = map (\<lambda>i. columns df ! i) idx,
      rows = map (\<lambda>r. map (\<lambda>i. r ! i) idx) (rows df)\<rparr>"

text \<open>\<open>df[labels]\<close> with a list of labels: \<open>KeyError\<close> when a label is not a column.\<close>

definition getitem_list :: "'a dataframe \<Rightarrow> string list \<Rightarrow> error + 'a dataframe" where
  "getitem_list df labels =
     (let missing = [c \<leftarrow> labels. c \<notin> set (columns df)]
      in if missing \<noteq> [] then Inl (KeyError missing)
         else Inr (take_columns df (concat (map (positions (columns df)) labels))))"

text \<open>\<open>df[label]\<close> with one label.\<close>

definition getitem :: "'a dataframe \<Rightarrow> string \<Rightarrow> error + 'a indexed" where
  "getitem df c =
     (case positions (columns df) c of
        [] \<Rightarrow> Inl (KeyError [c])
      | [i] \<Rightarrow> Inr (Series (map (\<lambda>r. r ! i) (rows df)))
      | idx \<Rightarrow> Inr (SubFrame (take_columns df idx)))"

text \<open>The \<open>.str\<close> accessor exists on a column, not on a frame.\<close>

fun str_accessor :: "'a indexed \<Rightarrow> error + 'a list" where
  "str_accessor (Series xs) = Inr xs"
| "str_accessor (SubFrame sub) = Inl (AttributeError ''str'')"

text \<open>\<open>df[mask]\<close> with a boolean column: the rows whose mask entry is true, in order.\<close>

definition boolean_index :: "'a dataframe \<Rightarrow> bool list \<Rightarrow> 'a dataframe" where
  "boolean_index df flags =
     \<lparr>columns = columns df, rows = map fst (filter snd (zip (rows df) flags))\<rparr>"

text \<open>\<open>df.empty\<close>: some axis has length zero.\<close>

definition empty :: "'a dataframe \<Rightarrow> bool" where
  "empty df = (columns df = [] \<or> rows df = [])"

text \<open>
  The frames the pipeline works on are aligned (every row has one cell per column);
  a loaded frame has pairwise different labels as well.
\<close>

definition aligned :: "'a dataframe \<Rightarrow> bool" where
  "aligned df = list_all (\<lambda>r. length r = length (columns df)) (rows df)"

text \<open>The cell of row \<open>r\<close> under label \<open>c\<close>, for a label that occurs in \<open>cols\<close>.\<close>

fun index_of :: "string list \<Rightarrow> string \<Rightarrow> nat" where
  "index_of [] c = 0"
| "index_of (x # xs) c = (if x = c then 0 else Suc (index_of xs c))"

definition cell :: "string list \<Rightarrow> 'a list \<Rightarrow> string \<Rightarrow> 'a" where
  "cell cols r c = r ! index_of cols c"


section \<open>The converter (database\_maker.py)\<close>

definition METADATA_COLUMNS :: "string list" where
  "METADATA_COLUMNS =
     [''Lp.'',
      ''Unikatowy Identyfikator Czasopisma'',
      ''Tytu'' @ [CHR 0xC5, CHR 0x82] @ '' 1'',
      ''issn'',
      ''e-issn'',
      ''Tytu'' @ [CHR 0xC5, CHR 0x82] @ '' 2'',
      ''issn 2'',
      ''e-issn 2'',
      ''Punkty'']"

subsection \<open>load\_data\<close>

text \<open>
  A cell as the pandas readers deliver it: text, an integer, a boolean, the missing
  value (a float NaN), or a value of another type (a finite float, a timestamp), which
  is represented by the text \<open>str()\<close> gives for it.
\<close>

datatype pyobj = PyStr string | PyInt int | PyBool bool | PyNaN | PyOther string

fun py_str :: "pyobj \<Rightarrow> string" where
  "py_str (PyStr s) = s"
| "py_str (PyInt i) = str_int i"
| "py_str (PyBool b) = (if b then ''True'' else ''False'')"
| "py_str PyNaN = ''nan''"
| "py_str (PyOther s) = s"

text \<open>\<open>df.astype(str)\<close>: every cell becomes its text.\<close>

definition astype_str :: "pyobj dataframe \<Rightarrow> string dataframe" where
  "astype_str df = \<lparr>columns = columns df, rows = map (map py_str) (rows df)\<rparr>"

text \<open>A frame of texts read back as a frame of Python values.\<close>

definition as_objects :: "string dataframe \<Rightarrow> pyobj dataframe" where
  "as_objects df = \<lparr>columns = columns df, rows = map (map PyStr) (rows df)\<rparr>"

definition rename_dict :: "(string \<times> string) list" where
  "rename_dict =
     [(''Unnamed: 0'', ''Lp.''),
      (''Unnamed: 1'', ''Unikatowy Identyfikator Czasopisma''),
      (''Unnamed: 2'', ''Tytu'' @ [CHR 0xC5, CHR 0x82] @ '' 1''),
      (''Unnamed: 3'', ''issn''),
      (''Unnamed: 4'', ''e-issn''),
      (''Unnamed: 5'', ''Tytu'' @ [CHR 0xC5, CHR 0x82] @ '' 2''),
      (''Unnamed: 6'', ''issn 2''),
      (''Unnamed: 7'', ''e-issn 2''),
      (''Unnamed: 8'', ''Punkty'')]"

definition rename :: "(string \<times> string) list \<Rightarrow> 'a dataframe \<Rightarrow> 'a dataframe" where
  "rename d df =
     df\<lparr>columns := map (\<lambda>c. case map_of d c of None \<Rightarrow> c | Some c' \<Rightarrow> c') (columns df)\<rparr>"

text \<open>
  \<open>load_data\<close>, given the path and the frame the pandas reader returns for the file
  (\<open>read_csv\<close> with every cell as text, or \<open>read_excel\<close> without the second row).
\<close>

definition load_data :: "string \<Rightarrow> pyobj dataframe \<Rightarrow> error + string dataframe" where
  "load_data file_path parsed =
     (if endswith (lower file_path) ''.csv'' then Inr (astype_str parsed)
      else if endswith (lower file_path) ''.xlsx'' \<or> endswith (lower file_path) ''.xls''
      then Inr (astype_str (rename rename_dict parsed))
      else Inl (ValueError ''Unsupported file format. Use CSV or Excel.''))"

subsection \<open>run\_conversion: the selection\<close>

definition cat_columns :: "'a dataframe \<Rightarrow> string list" where
  "cat_columns df = [col \<leftarrow> columns df. col \<notin> set METADATA_COLUMNS]"

text \<open>
  Lines 107 to 113: the numbers outside \<open>1..len(cat_columns)\<close> are collected; if there
  is one the run ends with the message naming them, otherwise each number is resolved
  to its label.
\<close>

definition select_columns :: "int list \<Rightarrow> string list \<Rightarrow> error + string list" where
  "select_columns chosen_indexes cats =
     (let max_index = int (length cats);
          invalid = [idx \<leftarrow> chosen_indexes. idx < 1 \<or> idx > max_index]
      in if invalid \<noteq> [] then Inl (InvalidColumnNumbers invalid)
         else Inr (map (\<lambda>idx. cats ! nat (idx - 1)) chosen_indexes))"

subsection \<open>run\_conversion: filtering and projection\<close>

text \<open>The test \<open>.str.strip().str.lower() == 'x'\<close> of lines 117 and 159, on one cell.\<close>

definition marked :: "string \<Rightarrow> bool" where
  "marked v = (lower (strip v) = ''x'')"

text \<open>
  Lines 117 and 118: the test is applied to every cell of the selected columns, and
  a row is kept when one of its cells passes (\<open>any(axis=1)\<close>).
\<close>

definition filter_rows :: "string dataframe \<Rightarrow> string list \<Rightarrow> error + string dataframe" where
  "filter_rows df chosen_cat_columns =
     (case getitem_list df chosen_cat_columns of
        Inl e \<Rightarrow> Inl e
      | Inr sub \<Rightarrow>
          Inr (boolean_index df (map (\<lambda>r. list_ex marked r) (rows sub))))"

text \<open>Lines 122 and 123.\<close>

definition project_columns :: "string dataframe \<Rightarrow> string list \<Rightarrow> error + string dataframe" where
  "project_columns df_filtered chosen_cat_columns =
     getitem_list df_filtered (METADATA_COLUMNS @ chosen_cat_columns)"

subsection \<open>run\_conversion: the workbook\<close>

text \<open>
  The workbook is the sequence of sheets written, each with the name given to
  \<open>to_excel\<close>.  What the spreadsheet library does with the name is not modelled: it
  refuses a name with one of the characters it does not allow and a name that differs
  from an earlier one only in case, and it writes into the earlier sheet when a name
  repeats.  Table styles and column widths are left out.
\<close>

type_synonym workbook = "(string \<times> string dataframe) list"

definition to_excel :: "string dataframe \<Rightarrow> workbook \<Rightarrow> string \<Rightarrow> workbook" where
  "to_excel df writer sheet_name = writer @ [(sheet_name, df)]"

text \<open>Lines 158 to 177, the loop over the chosen categories.\<close>

fun category_sheets :: "string dataframe \<Rightarrow> string list \<Rightarrow> workbook \<Rightarrow> error + workbook" where
  "category_sheets df_final [] writer = Inr writer"
| "category_sheets df_final (cat # cats) writer =
     (case getitem df_final cat of
        Inl e \<Rightarrow> Inl e
      | Inr sel \<Rightarrow>
         (case str_accessor sel of
            Inl e \<Rightarrow> Inl e
          | Inr col \<Rightarrow>
              let df_cat = boolean_index df_final (map marked col)
              in if empty df_cat then category_sheets df_final cats writer
                 else
                   (case getitem_list df_cat (METADATA_COLUMNS @ [cat]) of
                      Inl e \<Rightarrow> Inl e
                    | Inr df_cat_filtered \<Rightarrow>
                        category_sheets df_final cats
                          (to_excel df_cat_filtered writer (take 31 cat)))))"

text \<open>Lines 141 to 183: sheet \<open>All\<close> first, then the loop.\<close>

definition write_workbook :: "string dataframe \<Rightarrow> string list \<Rightarrow> error + workbook" where
  "write_workbook df_final chosen_cat_columns =
     category_sheets df_final chosen_cat_columns (to_excel df_final [] ''All'')"

text \<open>
  \<open>run_conversion\<close> from the frame \<open>load_data\<close> returned and the numbers parsed from
  the operator's input.  A failed selection ends the run, as does the \<open>KeyError\<close> of
  the projection; otherwise the result is the frame written to the pickle file and
  what became of the workbook (an exception while writing it is caught and reported,
  after the pickle file is written).  Writing the files themselves is taken to succeed.
\<close>

definition run_conversion ::
  "string dataframe \<Rightarrow> int list \<Rightarrow> error + (string dataframe \<times> (error + workbook))" where
  "run_conversion df chosen_indexes =
     (case select_columns chosen_indexes (cat_columns df) of
        Inl e \<Rightarrow> Inl e
      | Inr chosen_cat_columns \<Rightarrow>
         (case filter_rows df chosen_cat_columns of
            Inl e \<Rightarrow> Inl e
          | Inr df_filtered \<Rightarrow>
             (case project_columns df_filtered chosen_cat_columns of
                Inl e \<Rightarrow> Inl e
              | Inr df_final \<Rightarrow> Inr (df_final, write_workbook df_final chosen_cat_columns))))"

subsection \<open>The sheets the specification describes\<close>

text \<open>
  The rows of the final frame marked in category \<open>c\<close>, and the sheet for \<open>c\<close>: those
  rows, under the metadata columns and \<open>c\<close>.
\<close>

definition rows_marked :: "string dataframe \<Rightarrow> string \<Rightarrow> string list list" where
  "rows_marked fd c = filter (\<lambda>r. marked (cell (columns fd) r c)) (rows fd)"

definition category_sheet :: "string dataframe \<Rightarrow> string \<Rightarrow> string dataframe" where
  "category_sheet fd c =
     \<lparr>columns = METADATA_COLUMNS @ [c],
      rows = map (\<lambda>r. map (cell (columns fd) r) (METADATA_COLUMNS @ [c])) (rows_marked fd c)\<rparr>"

subsection \<open>A sample table\<close>

text \<open>
  A loaded table with four category columns, used to run the definitions: the first
  row is marked in \<open>A\<close> and \<open>C\<close>, the second in \<open>B\<close> (with blanks and an upper-case
  letter), the third in \<open>C\<close> only, and no row is marked in \<open>D\<close>.
\<close>

definition sample_table :: "string dataframe" where
  "sample_table =
     \<lparr>columns = METADATA_COLUMNS @ [''A'', ''B'', ''C'', ''D''],
      rows =
        [[''1'', ''id-1'', ''Acta'', ''1111-1111'', ''nan'', ''nan'', ''nan'', ''nan'', ''100'',
          ''x'', ''nan'', ''x'', ''nan''],
         [''2'', ''id-2'', ''Biuletyn'', ''2222-2222'', ''nan'', ''nan'', ''nan'', ''nan'', ''70'',
          ''nan'', ''  X '', ''nan'', ''nan''],
         [''3'', ''id-3'', ''Czas'', ''nan'', ''nan'', ''nan'', ''nan'', ''nan'', ''brak'',
          ''no'', ''no'', ''x'', ''no'']]\<rparr>"


section \<open>The viewer (database\_viewer.py)\<close>

text \<open>
  A Python float is a finite number, an infinity or NaN.  The viewer only compares
  floats, and comparison of finite floats is comparison of the rationals they are.
  Every comparison with NaN is false.
\<close>

datatype pyfloat = Finite rat | PosInf | NegInf | NaN

fun float_le :: "pyfloat \<Rightarrow> pyfloat \<Rightarrow> bool" where
  "float_le NaN y = False"
| "float_le x NaN = False"
| "float_le NegInf y = True"
| "float_le x PosInf = True"
| "float_le (Finite a) (Finite b) = (a \<le> b)"
| "float_le x y = False"

text \<open>A cell of the viewer's frame: text, or a float in the column made numeric.\<close>

datatype vcell = Text string | Number pyfloat

subsection \<open>load\_database\<close>

text \<open>
  \<open>pd.to_numeric(..., errors="coerce")\<close> on one text.  Which texts pandas reads as a
  number, and as which float, is a parameter: \<open>parse s\<close> is \<open>None\<close> for a text that is
  not a number, and coercion turns that into NaN.
\<close>

definition to_numeric_coerce :: "(string \<Rightarrow> pyfloat option) \<Rightarrow> string \<Rightarrow> pyfloat" where
  "to_numeric_coerce parse s = (case parse s of None \<Rightarrow> NaN | Some p \<Rightarrow> p)"

text \<open>
  Lines 25 to 33, from the frame read from the pickle file: the column \<open>Punkty\<close> is
  replaced by its numeric reading.  Any exception is caught and no frame is returned;
  without the column the lookup raises \<open>KeyError\<close>, and with the label twice
  \<open>to_numeric\<close> gets a frame and raises \<open>TypeError\<close>.
\<close>

definition load_database ::
  "(string \<Rightarrow> pyfloat option) \<Rightarrow> string dataframe \<Rightarrow> error + vcell dataframe" where
  "load_database parse pickled =
     (case positions (columns pickled) ''Punkty'' of
        [] \<Rightarrow> Inl (KeyError [''Punkty''])
      | [i] \<Rightarrow>
          Inr \<lparr>columns = columns pickled,
               rows = map (\<lambda>r. (map Text r)[i := Number (to_numeric_coerce parse (r ! i))])
                        (rows pickled)\<rparr>
      | _ \<Rightarrow> Inl (TypeError ''arg must be a list, tuple, 1-d array, or Series''))"

subsection \<open>DatabaseViewer.apply\_filters\<close>

text \<open>
  The two comparisons of line 195 on one cell of the points column, which holds
  floats once \<open>load_database\<close> has run.  The viewer is only built from a frame that
  \<open>load_database\<close> returned, so the label \<open>Punkty\<close> occurs once in it; for a frame
  with the label twice the model of the range filter stops with an error.
\<close>

definition in_range :: "pyfloat \<Rightarrow> pyfloat \<Rightarrow> vcell \<Rightarrow> bool" where
  "in_range min_points max_points v =
     (case v of
        Number p \<Rightarrow> float_le min_points p \<and> float_le p max_points
      | Text s \<Rightarrow> False)"

definition range_filter :: "pyfloat \<Rightarrow> pyfloat \<Rightarrow> vcell dataframe \<Rightarrow> error + vcell dataframe" where
  "range_filter min_points max_points df =
     (case getitem df ''Punkty'' of
        Inl e \<Rightarrow> Inl e
      | Inr (Series col) \<Rightarrow> Inr (boolean_index df (map (in_range min_points max_points) col))
      | Inr (SubFrame sub) \<Rightarrow> Inl (TypeError ''Punkty''))"

text \<open>
  The test \<open>.str.lower() == 'x'\<close> of line 198 on one cell: no \<open>strip\<close>.  A cell that
  is not text gives a missing value, which is not \<open>'x'\<close>.
\<close>

definition lower_is_x :: "vcell \<Rightarrow> bool" where
  "lower_is_x v = (case v of Text s \<Rightarrow> lower s = ''x'' | Number p \<Rightarrow> False)"

definition category_filter :: "string \<Rightarrow> vcell dataframe \<Rightarrow> error + vcell dataframe" where
  "category_filter selected_category filtered_df =
     (case getitem filtered_df selected_category of
        Inl e \<Rightarrow> Inl e
      | Inr sel \<Rightarrow>
         (case str_accessor sel of
            Inl e \<Rightarrow> Inl e
          | Inr col \<Rightarrow> Inr (boolean_index filtered_df (map lower_is_x col))))"

text \<open>
  \<open>sort_values(by="Punkty", ascending=False)\<close>: larger points first, NaN last.  The
  order pandas gives to rows with equal points is not fixed by its default sort; here
  they keep their order.
\<close>

definition points_key :: "vcell \<Rightarrow> pyfloat" where
  "points_key v = (case v of Number p \<Rightarrow> p | Text s \<Rightarrow> NaN)"

fun insert_desc :: "('a \<Rightarrow> pyfloat) \<Rightarrow> 'a \<Rightarrow> 'a list \<Rightarrow> 'a list" where
  "insert_desc key x [] = [x]"
| "insert_desc key x (y # ys) =
     (if key y = NaN \<or> float_le (key y) (key x) then x # y # ys
      else y # insert_desc key x ys)"

definition sort_values :: "vcell dataframe \<Rightarrow> error + vcell dataframe" where
  "sort_values df =
     (case positions (columns df) ''Punkty'' of
        [] \<Rightarrow> Inl (KeyError [''Punkty''])
      | [i] \<Rightarrow> Inr (df\<lparr>rows := foldr (insert_desc (\<lambda>r. points_key (r ! i))) (rows df) []\<rparr>)
      | _ \<Rightarrow> Inl (ValueError ''The column label Punkty is not unique.''))"

text \<open>
  Lines 186 to 204, with the texts of the two entry fields and the chosen category;
  \<open>py_float\<close> is Python's \<open>float()\<close> on a text, \<open>None\<close> where it raises \<open>ValueError\<close>.
  The result is the frame handed to the table.
\<close>

definition apply_filters ::
  "(string \<Rightarrow> pyfloat option) \<Rightarrow> vcell dataframe \<Rightarrow> string \<Rightarrow> string \<Rightarrow> string \<Rightarrow>
     error + vcell dataframe" where
  "apply_filters py_float df min_entry max_entry selected_category =
     (case py_float min_entry of
        None \<Rightarrow> Inl (ValueError ''Min and Max points must be numbers.'')
      | Some min_points \<Rightarrow>
         (case py_float max_entry of
            None \<Rightarrow> Inl (ValueError ''Min and Max points must be numbers.'')
          | Some max_points \<Rightarrow>
             (case range_filter min_points max_points df of
                Inl e \<Rightarrow> Inl e
              | Inr in_points \<Rightarrow>
                 (case (if selected_category \<noteq> ''All''
                        then category_filter selected_category in_points
                        else Inr in_points) of
                    Inl e \<Rightarrow> Inl e
                  | Inr filtered_df \<Rightarrow> sort_values filtered_df))))"

section \<open>Properties\<close>

subsection \<open>Selecting columns of a frame\<close>

lemma positions_Cons:
  "positions (x # xs) c = (if x = c then [0] else []) @ map Suc (positions xs c)"
proof -
  have "[0..<Suc (length xs)] = 0 # map Suc [0..<length xs]"
    by (simp only: map_Suc_upt upt_conv_Cons zero_less_Suc)
  then show ?thesis
    by (simp add: positions_def filter_map comp_def del: upt_Suc)
qed

lemma positions_notin: "c \<notin> set cols \<Longrightarrow> positions cols c = []"
proof (induction cols)
  case Nil
  show ?case by (simp add: positions_def)
next
  case (Cons a cols)
  then show ?case by (auto simp: positions_Cons)
qed

lemma positions_distinct:
  "distinct cols \<Longrightarrow> c \<in> set cols \<Longrightarrow> positions cols c = [index_of cols c]"
  by (induction cols) (auto simp: positions_Cons positions_notin)

lemma index_of_less: "c \<in> set cols \<Longrightarrow> index_of cols c < length cols"
  by (induction cols) auto

lemma nth_index_of: "c \<in> set cols \<Longrightarrow> cols ! index_of cols c = c"
  by (induction cols) auto

lemma boolean_index_map:
  "map fst (filter snd (zip xs (map f xs))) = filter f xs"
  by (induction xs) auto

lemma cell_map: "c \<in> set labels \<Longrightarrow> cell labels (map f labels) c = f c"
  by (simp add: cell_def index_of_less nth_index_of)


lemma concat_positions:
  "\<forall>c \<in> set labels. positions cols c = [index_of cols c] \<Longrightarrow>
   concat (map (positions cols) labels) = map (index_of cols) labels"
  by (induction labels) auto

lemma getitem_list_distinct:
  assumes "distinct (columns df)" and "set labels \<subseteq> set (columns df)"
  shows "getitem_list df labels =
    Inr \<lparr>columns = labels, rows = map (\<lambda>r. map (cell (columns df) r) labels) (rows df)\<rparr>"
proof -
  have none: "[c \<leftarrow> labels. c \<notin> set (columns df)] = []"
    using assms(2) by (auto simp: filter_empty_conv)
  have "\<forall>c \<in> set labels. positions (columns df) c = [index_of (columns df) c]"
    using assms by (auto simp: positions_distinct)
  then have idx: "concat (map (positions (columns df)) labels) = map (index_of (columns df)) labels"
    by (rule concat_positions)
  have cols: "map (\<lambda>c. columns df ! index_of (columns df) c) labels = labels"
    using assms(2) by (induction labels) (auto simp: nth_index_of)
  show ?thesis
    by (simp add: getitem_list_def none idx take_columns_def cols cell_def comp_def)
qed

lemma getitem_distinct:
  assumes "distinct (columns df)" and "c \<in> set (columns df)"
  shows "getitem df c = Inr (Series (map (\<lambda>r. cell (columns df) r c) (rows df)))"
  using assms by (simp add: getitem_def positions_distinct cell_def)

lemma list_ex_cells:
  "list_ex marked (map (cell cols r) chosen) = (\<exists>c \<in> set chosen. marked (cell cols r c))"
  by (auto simp: list_ex_iff)

lemma filter_rows_distinct:
  assumes "distinct (columns df)" and "set chosen \<subseteq> set (columns df)"
  shows "filter_rows df chosen =
    Inr \<lparr>columns = columns df,
         rows = filter (\<lambda>r. \<exists>c \<in> set chosen. marked (cell (columns df) r c)) (rows df)\<rparr>"
proof -
  have "map fst (filter snd (zip (rows df)
          (map (\<lambda>r. list_ex marked (map (cell (columns df) r) chosen)) (rows df))))
        = filter (\<lambda>r. list_ex marked (map (cell (columns df) r) chosen)) (rows df)"
    by (rule boolean_index_map)
  then show ?thesis
    using assms
    by (simp add: filter_rows_def getitem_list_distinct boolean_index_def comp_def list_ex_cells)
qed

lemma cat_columns_subset: "set (cat_columns df) \<subseteq> set (columns df)"
  by (auto simp: cat_columns_def)

lemma cat_columns_not_metadata: "c \<in> set (cat_columns df) \<Longrightarrow> c \<notin> set METADATA_COLUMNS"
  by (simp add: cat_columns_def)

lemma select_columns_Inr:
  assumes "select_columns idxs cats = Inr chosen"
  shows "chosen = map (\<lambda>idx. cats ! nat (idx - 1)) idxs"
    and "\<forall>idx \<in> set idxs. 1 \<le> idx \<and> idx \<le> int (length cats)"
    and "set chosen \<subseteq> set cats"
proof -
  from assms have empty: "[idx \<leftarrow> idxs. idx < 1 \<or> idx > int (length cats)] = []"
    by (auto simp: select_columns_def Let_def split: if_splits)
  with assms show eq: "chosen = map (\<lambda>idx. cats ! nat (idx - 1)) idxs"
    by (simp add: select_columns_def)
  from empty show range: "\<forall>idx \<in> set idxs. 1 \<le> idx \<and> idx \<le> int (length cats)"
    by (auto simp: filter_empty_conv)
  show "set chosen \<subseteq> set cats"
  proof
    fix c assume "c \<in> set chosen"
    with eq obtain idx where "idx \<in> set idxs" and c: "c = cats ! nat (idx - 1)"
      by auto
    with range have "nat (idx - 1) < length cats" by auto
    with c show "c \<in> set cats" by simp
  qed
qed

lemma run_conversion_final:
  assumes "distinct (columns df)" and "set METADATA_COLUMNS \<subseteq> set (columns df)"
    and "select_columns idxs (cat_columns df) = Inr chosen"
  shows "\<exists>fd. run_conversion df idxs = Inr (fd, write_workbook fd chosen) \<and>
     fd = \<lparr>columns = METADATA_COLUMNS @ chosen,
           rows = map (\<lambda>r. map (cell (columns df) r) (METADATA_COLUMNS @ chosen))
             (filter (\<lambda>r. \<exists>c \<in> set chosen. marked (cell (columns df) r c)) (rows df))\<rparr>"
proof -
  have sub: "set chosen \<subseteq> set (columns df)"
    using select_columns_Inr(3) [OF assms(3)] cat_columns_subset by blast
  let ?kept = "\<lparr>columns = columns df,
     rows = filter (\<lambda>r. \<exists>c \<in> set chosen. marked (cell (columns df) r c)) (rows df)\<rparr>"
  have kept: "filter_rows df chosen = Inr ?kept"
    using assms(1) sub by (rule filter_rows_distinct)
  have "project_columns ?kept chosen =
      Inr \<lparr>columns = METADATA_COLUMNS @ chosen,
           rows = map (\<lambda>r. map (cell (columns ?kept) r) (METADATA_COLUMNS @ chosen)) (rows ?kept)\<rparr>"
    unfolding project_columns_def
    using assms(1,2) sub by (intro getitem_list_distinct) auto
  then show ?thesis
    by (simp add: run_conversion_def assms(3) kept)
qed

subsection \<open>The workbook loop\<close>

lemma getitem_list_missing:
  assumes "\<not> set labels \<subseteq> set (columns df)"
  shows "getitem_list df labels = Inl (KeyError [c \<leftarrow> labels. c \<notin> set (columns df)])"
proof -
  from assms have "[c \<leftarrow> labels. c \<notin> set (columns df)] \<noteq> []"
    by (auto simp: filter_empty_conv)
  then show ?thesis by (simp add: getitem_list_def)
qed

lemma run_conversion_missing:
  assumes "distinct (columns df)" and "\<not> set METADATA_COLUMNS \<subseteq> set (columns df)"
    and "select_columns idxs (cat_columns df) = Inr chosen"
  shows "run_conversion df idxs =
     Inl (KeyError [m \<leftarrow> METADATA_COLUMNS. m \<notin> set (columns df)])"
proof -
  have sub: "set chosen \<subseteq> set (columns df)"
    using select_columns_Inr(3) [OF assms(3)] cat_columns_subset by blast
  let ?kept = "\<lparr>columns = columns df,
     rows = filter (\<lambda>r. \<exists>c \<in> set chosen. marked (cell (columns df) r c)) (rows df)\<rparr>"
  have kept: "filter_rows df chosen = Inr ?kept"
    using assms(1) sub by (rule filter_rows_distinct)
  have "\<not> set (METADATA_COLUMNS @ chosen) \<subseteq> set (columns ?kept)"
    using assms(2) by auto
  then have "project_columns ?kept chosen =
      Inl (KeyError [c \<leftarrow> METADATA_COLUMNS @ chosen. c \<notin> set (columns ?kept)])"
    unfolding project_columns_def by (rule getitem_list_missing)
  moreover have "[c \<leftarrow> chosen. c \<notin> set (columns df)] = []"
    using sub by (auto simp: filter_empty_conv)
  ultimately show ?thesis
    by (simp add: run_conversion_def assms(3) kept)
qed

lemma metadata_distinct: "distinct METADATA_COLUMNS"
  by (simp add: METADATA_COLUMNS_def)

lemma category_sheets_distinct:
  assumes "distinct (columns fd)" and "set METADATA_COLUMNS \<subseteq> set (columns fd)"
    and "set cats \<subseteq> set (columns fd)"
  shows "category_sheets fd cats w =
     Inr (w @ map (\<lambda>c. (take 31 c, category_sheet fd c))
                 (filter (\<lambda>c. rows_marked fd c \<noteq> []) cats))"
  using assms(3)
proof (induction cats arbitrary: w)
  case Nil
  show ?case by simp
next
  case (Cons cat cats)
  then have cat: "cat \<in> set (columns fd)" and rest: "set cats \<subseteq> set (columns fd)"
    by auto
  let ?df_cat = "boolean_index fd (map marked (map (\<lambda>r. cell (columns fd) r cat) (rows fd)))"
  have sel: "getitem fd cat = Inr (Series (map (\<lambda>r. cell (columns fd) r cat) (rows fd)))"
    using assms(1) cat by (rule getitem_distinct)
  have df_cat: "?df_cat = \<lparr>columns = columns fd, rows = rows_marked fd cat\<rparr>"
    using boolean_index_map [of "rows fd" "\<lambda>r. marked (cell (columns fd) r cat)"]
    by (simp add: boolean_index_def rows_marked_def comp_def)
  have nonempty: "columns fd \<noteq> []"
    using assms(2) by (auto simp: METADATA_COLUMNS_def)
  have emp: "empty ?df_cat \<longleftrightarrow> rows_marked fd cat = []"
    by (simp only: df_cat) (simp add: empty_def nonempty)
  have sheet: "getitem_list ?df_cat (METADATA_COLUMNS @ [cat]) = Inr (category_sheet fd cat)"
  proof -
    have "getitem_list \<lparr>columns = columns fd, rows = rows_marked fd cat\<rparr> (METADATA_COLUMNS @ [cat])
       = Inr \<lparr>columns = METADATA_COLUMNS @ [cat],
              rows = map (\<lambda>r. map (cell (columns \<lparr>columns = columns fd, rows = rows_marked fd cat\<rparr>) r)
                 (METADATA_COLUMNS @ [cat])) (rows \<lparr>columns = columns fd, rows = rows_marked fd cat\<rparr>)\<rparr>"
      using assms(1,2) cat by (intro getitem_list_distinct) auto
    then show ?thesis by (simp only: df_cat) (simp add: category_sheet_def)
  qed
  show ?case
  proof (cases "rows_marked fd cat = []")
    case True
    then show ?thesis
      using Cons.IH [OF rest, of w] by (simp add: sel emp del: map_map)
  next
    case False
    then show ?thesis
      using Cons.IH [OF rest, of "to_excel (category_sheet fd cat) w (take 31 cat)"]
      by (simp add: sel emp sheet to_excel_def del: map_map)
  qed
qed

lemma positions_Nil: "positions [] c = []"
  by (simp add: positions_def)

lemma positions_append:
  "positions (xs @ ys) c = positions xs c @ map (\<lambda>i. length xs + i) (positions ys c)"
  by (induction xs) (simp_all add: positions_Nil positions_Cons comp_def)

lemma positions_nonempty: "c \<in> set cols \<Longrightarrow> positions cols c \<noteq> []"
  by (induction cols) (auto simp: positions_Cons)

lemma positions_single_distinct:
  "\<forall>c \<in> set xs. length (positions xs c) = 1 \<Longrightarrow> distinct xs"
proof (induction xs)
  case Nil
  show ?case by simp
next
  case (Cons x xs)
  have "length (positions (x # xs) x) = 1"
    using Cons.prems by simp
  then have "positions xs x = []"
    by (simp add: positions_Cons)
  then have notin: "x \<notin> set xs"
    using positions_nonempty by blast
  have "\<forall>c \<in> set xs. length (positions xs c) = 1"
  proof
    fix c assume c: "c \<in> set xs"
    then have "length (positions (x # xs) c) = 1"
      using Cons.prems by simp
    moreover have "x \<noteq> c" using c notin by blast
    ultimately show "length (positions xs c) = 1"
      by (simp add: positions_Cons)
  qed
  then have "distinct xs" by (rule Cons.IH)
  with notin show ?case by simp
qed

lemma category_sheets_Inr_unique:
  "category_sheets fd cats w = Inr w' \<Longrightarrow> c \<in> set cats \<Longrightarrow>
   length (positions (columns fd) c) = 1"
proof (induction cats arbitrary: w)
  case Nil
  then show ?case by simp
next
  case (Cons cat cats)
  from Cons.prems(1) have here: "length (positions (columns fd) cat) = 1"
    by (auto simp: getitem_def split: list.splits sum.splits)
  from Cons.prems(1) obtain w1 where "category_sheets fd cats w1 = Inr w'"
    by (auto simp: Let_def split: sum.splits if_splits)
  then have "c \<in> set cats \<Longrightarrow> length (positions (columns fd) c) = 1"
    by (rule Cons.IH)
  with here Cons.prems(2) show ?case by auto
qed

lemma write_workbook_Inr_distinct:
  assumes "write_workbook fd chosen = Inr wb" and "columns fd = METADATA_COLUMNS @ chosen"
    and "set chosen \<inter> set METADATA_COLUMNS = {}"
  shows "distinct chosen"
proof (rule positions_single_distinct, rule ballI)
  fix c assume c: "c \<in> set chosen"
  with assms(1) have "length (positions (columns fd) c) = 1"
    unfolding write_workbook_def by (rule category_sheets_Inr_unique)
  moreover have "positions METADATA_COLUMNS c = []"
    using c assms(3) by (intro positions_notin) auto
  ultimately show "length (positions chosen c) = 1"
    by (simp add: assms(2) positions_append)
qed

lemma final_columns_distinct:
  assumes "distinct chosen" and "set chosen \<inter> set METADATA_COLUMNS = {}"
  shows "distinct (METADATA_COLUMNS @ chosen)"
  using assms metadata_distinct by auto

lemma write_workbook_distinct:
  assumes "columns fd = METADATA_COLUMNS @ chosen" and "distinct chosen"
    and "set chosen \<inter> set METADATA_COLUMNS = {}"
  shows "write_workbook fd chosen =
     Inr ((''All'', fd) # map (\<lambda>c. (take 31 c, category_sheet fd c))
                            (filter (\<lambda>c. rows_marked fd c \<noteq> []) chosen))"
proof -
  have "distinct (columns fd)"
    using final_columns_distinct [OF assms(2,3)] by (simp add: assms(1))
  moreover have "set METADATA_COLUMNS \<subseteq> set (columns fd)" and "set chosen \<subseteq> set (columns fd)"
    by (simp_all add: assms(1))
  ultimately show ?thesis
    by (simp add: write_workbook_def category_sheets_distinct to_excel_def)
qed

lemma select_columns_disjoint:
  assumes "select_columns idxs (cat_columns df) = Inr chosen"
  shows "set chosen \<inter> set METADATA_COLUMNS = {}"
  using select_columns_Inr(3) [OF assms] cat_columns_not_metadata by blast

lemma final_frame_metadata:
  assumes "m \<in> set METADATA_COLUMNS"
  shows "cell (METADATA_COLUMNS @ chosen) (map f (METADATA_COLUMNS @ chosen)) m = f m"
  using assms by (intro cell_map) simp

lemma category_sheet_metadata:
  assumes "r \<in> set (rows (category_sheet fd c))"
  shows "\<exists>r0 \<in> set (rows fd).
     map (cell (columns (category_sheet fd c)) r) METADATA_COLUMNS =
     map (cell (columns fd) r0) METADATA_COLUMNS"
proof -
  from assms obtain r0 where r0: "r0 \<in> set (rows fd)"
    and r: "r = map (cell (columns fd) r0) (METADATA_COLUMNS @ [c])"
    by (auto simp: category_sheet_def rows_marked_def)
  have "\<forall>m \<in> set METADATA_COLUMNS.
      cell (METADATA_COLUMNS @ [c]) (map (cell (columns fd) r0) (METADATA_COLUMNS @ [c])) m
        = cell (columns fd) r0 m"
    by (rule ballI, rule final_frame_metadata)
  then have "map (cell (columns (category_sheet fd c)) r) METADATA_COLUMNS =
     map (cell (columns fd) r0) METADATA_COLUMNS"
    by (simp add: category_sheet_def r)
  with r0 show ?thesis by blast
qed

subsection \<open>The viewer's filters\<close>

lemma float_le_NaN_right: "float_le x NaN = False"
  by (cases x) simp_all

lemma in_range_NaN: "in_range lo hi (Number NaN) = False"
  by (simp add: in_range_def float_le_NaN_right)

lemma boolean_index_subset: "set (rows (boolean_index df flags)) \<subseteq> set (rows df)"
  by (auto simp: boolean_index_def dest: set_zip_leftD)

lemma boolean_index_columns: "columns (boolean_index df flags) = columns df"
  by (simp add: boolean_index_def)

lemma set_insert_desc: "set (insert_desc key x ys) = insert x (set ys)"
  by (induction ys) auto

lemma set_foldr_insert_desc: "set (foldr (insert_desc key) xs []) = set xs"
  by (induction xs) (simp_all add: set_insert_desc)

lemma sort_values_rows:
  "sort_values df = Inr out \<Longrightarrow> set (rows out) = set (rows df) \<and> columns out = columns df"
  by (auto simp: sort_values_def set_foldr_insert_desc split: list.splits)

lemma category_filter_rows:
  "category_filter cat df = Inr out \<Longrightarrow> set (rows out) \<subseteq> set (rows df) \<and> columns out = columns df"
  using boolean_index_subset
  by (fastforce simp: category_filter_def boolean_index_columns split: sum.splits)

lemma getitem_unique:
  "positions (columns df) c = [i] \<Longrightarrow> getitem df c = Inr (Series (map (\<lambda>r. r ! i) (rows df)))"
  by (simp add: getitem_def)

lemma range_filter_unique:
  assumes "positions (columns df) ''Punkty'' = [i]"
  shows "range_filter lo hi df =
     Inr \<lparr>columns = columns df, rows = filter (\<lambda>r. in_range lo hi (r ! i)) (rows df)\<rparr>"
  using boolean_index_map [of "rows df" "\<lambda>r. in_range lo hi (r ! i)"]
  by (simp add: range_filter_def getitem_unique [OF assms] boolean_index_def comp_def)

lemma category_filter_unique:
  assumes "positions (columns df) cat = [j]"
  shows "category_filter cat df =
     Inr \<lparr>columns = columns df, rows = filter (\<lambda>r. lower_is_x (r ! j)) (rows df)\<rparr>"
  using boolean_index_map [of "rows df" "\<lambda>r. lower_is_x (r ! j)"]
  by (simp add: category_filter_def getitem_unique [OF assms] boolean_index_def comp_def)

lemma load_database_unique:
  assumes "positions (columns pickled) ''Punkty'' = [i]"
  shows "load_database parse pickled =
     Inr \<lparr>columns = columns pickled,
          rows = map (\<lambda>r. (map Text r)[i := Number (to_numeric_coerce parse (r ! i))])
                   (rows pickled)\<rparr>"
  by (simp add: load_database_def assms)

lemma positions_less: "positions cols c = [i] \<Longrightarrow> i < length cols"
proof -
  assume "positions cols c = [i]"
  then have "i \<in> set [k \<leftarrow> [0..<length cols]. cols ! k = c]"
    by (simp add: positions_def)
  then show ?thesis by simp
qed

lemma apply_filters_rows:
  assumes "positions (columns df) ''Punkty'' = [i]"
    and "apply_filters py_float df min_entry max_entry cat = Inr out"
  shows "\<exists>lo hi. py_float min_entry = Some lo \<and> py_float max_entry = Some hi \<and>
     set (rows out) \<subseteq> {r \<in> set (rows df). in_range lo hi (r ! i)}"
proof -
  from assms(2) obtain lo hi where lo: "py_float min_entry = Some lo"
    and hi: "py_float max_entry = Some hi"
    by (auto simp: apply_filters_def split: option.splits)
  let ?in_points = "\<lparr>columns = columns df, rows = filter (\<lambda>r. in_range lo hi (r ! i)) (rows df)\<rparr>"
  have rf: "range_filter lo hi df = Inr ?in_points"
    using assms(1) by (rule range_filter_unique)
  from assms(2) obtain filtered where sorted: "sort_values filtered = Inr out"
    and filtered: "filtered = ?in_points \<or> category_filter cat ?in_points = Inr filtered"
    by (auto simp: apply_filters_def lo hi rf split: sum.splits if_splits)
  from filtered have "set (rows filtered) \<subseteq> set (rows ?in_points)"
    using category_filter_rows by blast
  moreover from sorted have "set (rows out) = set (rows filtered)"
    using sort_values_rows by blast
  ultimately have "set (rows out) \<subseteq> {r \<in> set (rows df). in_range lo hi (r ! i)}"
    by auto
  with lo hi show ?thesis by blast
qed

subsection \<open>The sample table\<close>

lemma sample_aligned: "aligned sample_table"
  by (simp add: aligned_def sample_table_def METADATA_COLUMNS_def)

lemma sample_distinct: "distinct (columns sample_table)"
  by (simp add: sample_table_def METADATA_COLUMNS_def)

lemma sample_metadata: "set METADATA_COLUMNS \<subseteq> set (columns sample_table)"
  by (auto simp: sample_table_def)

lemma sample_cat_columns: "cat_columns sample_table = [''A'', ''B'', ''C'', ''D'']"
  by (simp add: cat_columns_def sample_table_def METADATA_COLUMNS_def)

subsection \<open>The claims\<close>

text \<open>
  C1. For a loaded table and a non-empty list of selected category columns, the rows
  kept by the filter are exactly the rows in which the cell of some selected column,
  stripped and lower-cased, is \<open>x\<close>, in their original order; since only selected
  columns are looked at, a marker in another column keeps no row.
\<close>

theorem filter_rows_marked:
  assumes "aligned df" and "distinct (columns df)"
    and "chosen \<noteq> []" and "set chosen \<subseteq> set (cat_columns df)"
  shows "\<exists>kept. filter_rows df chosen = Inr kept \<and> columns kept = columns df \<and>
     rows kept = filter (\<lambda>r. \<exists>c \<in> set chosen. marked (cell (columns df) r c)) (rows df) \<and>
     (\<forall>r \<in> set (rows df).
        r \<in> set (rows kept) \<longleftrightarrow> (\<exists>c \<in> set chosen. marked (cell (columns df) r c)))"
proof -
  have "set chosen \<subseteq> set (columns df)"
    using assms(4) cat_columns_subset by blast
  with assms(2) have "filter_rows df chosen =
    Inr \<lparr>columns = columns df,
         rows = filter (\<lambda>r. \<exists>c \<in> set chosen. marked (cell (columns df) r c)) (rows df)\<rparr>"
    by (rule filter_rows_distinct)
  then show ?thesis by simp
qed

theorem filter_rows_marked_witness:
  "filter_rows
     \<lparr>columns = [''c1'', ''c2'', ''c3''],
      rows = [[''X'', ''no'', ''  x ''], [''no'', ''x'', ''''], ['''', ''no'', ''x'']]\<rparr>
     [''c1'', ''c3'']
   = Inr \<lparr>columns = [''c1'', ''c2'', ''c3''],
          rows = [[''X'', ''no'', ''  x ''], ['''', ''no'', ''x'']]\<rparr>"
proof -
  let ?df = "\<lparr>columns = [''c1'', ''c2'', ''c3''],
      rows = [[''X'', ''no'', ''  x ''], [''no'', ''x'', ''''], ['''', ''no'', ''x'']]\<rparr>"
  have "aligned ?df" by (simp add: aligned_def)
  moreover have "distinct (columns ?df)" by simp
  moreover have "[''c1'', ''c3''] \<noteq> []" by simp
  moreover have "set [''c1'', ''c3''] \<subseteq> set (cat_columns ?df)"
    by (simp add: cat_columns_def METADATA_COLUMNS_def)
  ultimately obtain kept where "filter_rows ?df [''c1'', ''c3''] = Inr kept"
    and "columns kept = columns ?df"
    and "rows kept =
      filter (\<lambda>r. \<exists>c \<in> set [''c1'', ''c3'']. marked (cell (columns ?df) r c)) (rows ?df)"
    using filter_rows_marked [of ?df "[''c1'', ''c3'']"] by blast
  moreover have
    "filter (\<lambda>r. \<exists>c \<in> set [''c1'', ''c3'']. marked (cell (columns ?df) r c)) (rows ?df)
       = [[''X'', ''no'', ''  x ''], ['''', ''no'', ''x'']]"
    by code_simp
  ultimately show ?thesis by (cases kept) simp
qed

text \<open>
  C2. If some supplied number lies outside \<open>1..N\<close>, the selection fails and reports
  numbers whose set is exactly the set of supplied numbers outside \<open>1..N\<close>, and no
  labels are returned; if all lie inside, the labels come back in the order of the
  numbers, the k-th label being the category at the k-th number.
\<close>

theorem select_columns_complete:
  "((\<exists>idx \<in> set idxs. idx < 1 \<or> idx > int (length cats)) \<longrightarrow>
      (\<exists>invalid. select_columns idxs cats = Inl (InvalidColumnNumbers invalid) \<and>
         set invalid = {idx \<in> set idxs. idx < 1 \<or> idx > int (length cats)})) \<and>
   ((\<forall>idx \<in> set idxs. 1 \<le> idx \<and> idx \<le> int (length cats)) \<longrightarrow>
      (\<exists>chosen. select_columns idxs cats = Inr chosen \<and>
         length chosen = length idxs \<and>
         (\<forall>k < length idxs. chosen ! k = cats ! nat (idxs ! k - 1))))"
proof (intro conjI impI)
  assume bad: "\<exists>idx \<in> set idxs. idx < 1 \<or> idx > int (length cats)"
  let ?inv = "[idx \<leftarrow> idxs. idx < 1 \<or> idx > int (length cats)]"
  from bad have "?inv \<noteq> []"
    by (auto simp: filter_empty_conv)
  then have "select_columns idxs cats = Inl (InvalidColumnNumbers ?inv)"
    by (simp add: select_columns_def)
  moreover have "set ?inv = {idx \<in> set idxs. idx < 1 \<or> idx > int (length cats)}"
    by simp
  ultimately show "\<exists>invalid. select_columns idxs cats = Inl (InvalidColumnNumbers invalid) \<and>
      set invalid = {idx \<in> set idxs. idx < 1 \<or> idx > int (length cats)}"
    by blast
next
  assume ok: "\<forall>idx \<in> set idxs. 1 \<le> idx \<and> idx \<le> int (length cats)"
  then have "[idx \<leftarrow> idxs. idx < 1 \<or> idx > int (length cats)] = []"
    by (auto simp: filter_empty_conv)
  then have "select_columns idxs cats = Inr (map (\<lambda>idx. cats ! nat (idx - 1)) idxs)"
    by (simp add: select_columns_def)
  then show "\<exists>chosen. select_columns idxs cats = Inr chosen \<and>
      length chosen = length idxs \<and>
      (\<forall>k < length idxs. chosen ! k = cats ! nat (idxs ! k - 1))"
    by simp
qed

theorem select_columns_complete_witness:
  "select_columns [2, 7, 0, 4] [''c1'', ''c2'', ''c3'', ''c4'', ''c5'']
     = Inl (InvalidColumnNumbers [7, 0]) \<and>
   select_columns [3, 1, 3] [''c1'', ''c2'', ''c3'', ''c4'', ''c5'']
     = Inr [''c3'', ''c1'', ''c3'']"
  using select_columns_complete [of "[2, 7, 0, 4]" "[''c1'', ''c2'', ''c3'', ''c4'', ''c5'']"]
    select_columns_complete [of "[3, 1, 3]" "[''c1'', ''c2'', ''c3'', ''c4'', ''c5'']"]
  by (simp add: select_columns_def)

text \<open>
  C3. For an aligned table with pairwise different labels and a valid selection:
  whenever the conversion yields a final frame, its columns are the metadata columns
  followed by the selected columns; each of its rows is a row that passed the filter,
  holding under these labels, in this order, the cells the loaded row has under them and
  no other cell (the final frame is aligned); and no other column of the table, so no
  unselected category, is among its columns.  It does yield a final frame when the
  table has all metadata columns.
\<close>

theorem final_columns:
  assumes "aligned df" and "distinct (columns df)"
    and "select_columns idxs (cat_columns df) = Inr chosen"
  shows "(set METADATA_COLUMNS \<subseteq> set (columns df) \<longrightarrow>
            (\<exists>fd wr. run_conversion df idxs = Inr (fd, wr))) \<and>
         (\<forall>fd wr. run_conversion df idxs = Inr (fd, wr) \<longrightarrow>
            columns fd = METADATA_COLUMNS @ chosen \<and>
            rows fd =
              map (\<lambda>r. map (cell (columns df) r) (METADATA_COLUMNS @ chosen))
                (filter (\<lambda>r. \<exists>c \<in> set chosen. marked (cell (columns df) r c)) (rows df)) \<and>
            aligned fd \<and>
            (\<forall>c \<in> set (columns df).
               c \<notin> set METADATA_COLUMNS \<longrightarrow> c \<notin> set chosen \<longrightarrow> c \<notin> set (columns fd)))"
proof (cases "set METADATA_COLUMNS \<subseteq> set (columns df)")
  case True
  let ?kept = "filter (\<lambda>r. \<exists>c \<in> set chosen. marked (cell (columns df) r c)) (rows df)"
  let ?fd = "\<lparr>columns = METADATA_COLUMNS @ chosen,
     rows = map (\<lambda>r. map (cell (columns df) r) (METADATA_COLUMNS @ chosen)) ?kept\<rparr>"
  from run_conversion_final [OF assms(2) True assms(3)]
  have run: "run_conversion df idxs = Inr (?fd, write_workbook ?fd chosen)"
    by auto
  have "aligned ?fd"
    by (simp add: aligned_def list_all_iff)
  with run show ?thesis by auto
next
  case False
  with assms have "run_conversion df idxs =
     Inl (KeyError [m \<leftarrow> METADATA_COLUMNS. m \<notin> set (columns df)])"
    by (intro run_conversion_missing)
  with False show ?thesis by simp
qed

theorem final_columns_witness:
  "\<exists>fd wr. run_conversion sample_table [2, 1] = Inr (fd, wr) \<and>
     columns fd = METADATA_COLUMNS @ [''B'', ''A''] \<and>
     rows fd =
       [[''1'', ''id-1'', ''Acta'', ''1111-1111'', ''nan'', ''nan'', ''nan'', ''nan'', ''100'',
         ''nan'', ''x''],
        [''2'', ''id-2'', ''Biuletyn'', ''2222-2222'', ''nan'', ''nan'', ''nan'', ''nan'', ''70'',
         ''  X '', ''nan'']] \<and>
     aligned fd \<and>
     ''C'' \<notin> set (columns fd) \<and> ''D'' \<notin> set (columns fd)"
proof -
  have sel: "select_columns [2, 1] (cat_columns sample_table) = Inr [''B'', ''A'']"
    by (simp add: sample_cat_columns select_columns_def)
  note fc = final_columns [OF sample_aligned sample_distinct sel]
  from fc sample_metadata obtain fd wr
    where run: "run_conversion sample_table [2, 1] = Inr (fd, wr)" by blast
  with fc have cols: "columns fd = METADATA_COLUMNS @ [''B'', ''A'']"
    and rws: "rows fd =
      map (\<lambda>r. map (cell (columns sample_table) r) (METADATA_COLUMNS @ [''B'', ''A'']))
        (filter (\<lambda>r. \<exists>c \<in> set [''B'', ''A'']. marked (cell (columns sample_table) r c))
           (rows sample_table))"
    and al: "aligned fd"
    by blast+
  have "map (\<lambda>r. map (cell (columns sample_table) r) (METADATA_COLUMNS @ [''B'', ''A'']))
        (filter (\<lambda>r. \<exists>c \<in> set [''B'', ''A'']. marked (cell (columns sample_table) r c))
           (rows sample_table)) =
       [[''1'', ''id-1'', ''Acta'', ''1111-1111'', ''nan'', ''nan'', ''nan'', ''nan'', ''100'',
         ''nan'', ''x''],
        [''2'', ''id-2'', ''Biuletyn'', ''2222-2222'', ''nan'', ''nan'', ''nan'', ''nan'', ''70'',
         ''  X '', ''nan'']]"
    by code_simp
  with rws have vals: "rows fd =
       [[''1'', ''id-1'', ''Acta'', ''1111-1111'', ''nan'', ''nan'', ''nan'', ''nan'', ''100'',
         ''nan'', ''x''],
        [''2'', ''id-2'', ''Biuletyn'', ''2222-2222'', ''nan'', ''nan'', ''nan'', ''nan'', ''70'',
         ''  X '', ''nan'']]"
    by simp
  have "''C'' \<notin> set (columns fd)" and "''D'' \<notin> set (columns fd)"
    by (simp_all add: cols METADATA_COLUMNS_def)
  with run cols vals al show ?thesis
    by (intro exI [of _ fd] exI [of _ wr]) simp
qed

text \<open>
  C4. The categorical columns are the columns outside the fixed metadata list, in
  table order.  The metadata part of the projection is the whole fixed list, present
  or not: with all nine labels in the table the final frame has the fixed list followed
  by the selection, and with one absent the projection raises \<open>KeyError\<close> naming the
  absent labels, and there is no final frame.
\<close>

theorem classification_fixed_metadata:
  assumes "distinct (columns df)"
    and "select_columns idxs (cat_columns df) = Inr chosen"
  shows "cat_columns df = [col \<leftarrow> columns df. col \<notin> set METADATA_COLUMNS] \<and>
     (set METADATA_COLUMNS \<subseteq> set (columns df) \<longrightarrow>
        (\<exists>fd wr. run_conversion df idxs = Inr (fd, wr) \<and>
           columns fd = METADATA_COLUMNS @ chosen)) \<and>
     (\<not> set METADATA_COLUMNS \<subseteq> set (columns df) \<longrightarrow>
        run_conversion df idxs =
          Inl (KeyError [m \<leftarrow> METADATA_COLUMNS. m \<notin> set (columns df)]))"
proof (intro conjI impI)
  show "cat_columns df = [col \<leftarrow> columns df. col \<notin> set METADATA_COLUMNS]"
    by (simp add: cat_columns_def)
next
  assume "set METADATA_COLUMNS \<subseteq> set (columns df)"
  with assms show "\<exists>fd wr. run_conversion df idxs = Inr (fd, wr) \<and>
      columns fd = METADATA_COLUMNS @ chosen"
    using run_conversion_final [of df idxs chosen] by auto
next
  assume "\<not> set METADATA_COLUMNS \<subseteq> set (columns df)"
  with assms show "run_conversion df idxs =
      Inl (KeyError [m \<leftarrow> METADATA_COLUMNS. m \<notin> set (columns df)])"
    by (intro run_conversion_missing)
qed

theorem classification_fixed_metadata_witness:
  "cat_columns sample_table = [''A'', ''B'', ''C'', ''D''] \<and>
   (\<exists>fd wr. run_conversion sample_table [3] = Inr (fd, wr) \<and>
      columns fd = METADATA_COLUMNS @ [''C'']) \<and>
   run_conversion \<lparr>columns = [''Punkty'', ''issn'', ''A''], rows = [[''40'', ''1234-5678'', ''x'']]\<rparr> [1] =
     Inl (KeyError [''Lp.'', ''Unikatowy Identyfikator Czasopisma'',
       ''Tytu'' @ [CHR 0xC5, CHR 0x82] @ '' 1'', ''e-issn'',
       ''Tytu'' @ [CHR 0xC5, CHR 0x82] @ '' 2'', ''issn 2'', ''e-issn 2''])"
proof -
  have sel: "select_columns [3] (cat_columns sample_table) = Inr [''C'']"
    by (simp add: sample_cat_columns select_columns_def)
  let ?small = "\<lparr>columns = [''Punkty'', ''issn'', ''A''], rows = [[''40'', ''1234-5678'', ''x'']]\<rparr>"
  have small_distinct: "distinct (columns ?small)" by simp
  have small_sel: "select_columns [1] (cat_columns ?small) = Inr [''A'']"
    by (simp add: cat_columns_def select_columns_def METADATA_COLUMNS_def)
  have small_missing: "\<not> set METADATA_COLUMNS \<subseteq> set (columns ?small)"
    by (simp add: METADATA_COLUMNS_def)
  have "[m \<leftarrow> METADATA_COLUMNS. m \<notin> set (columns ?small)] =
     [''Lp.'', ''Unikatowy Identyfikator Czasopisma'',
       ''Tytu'' @ [CHR 0xC5, CHR 0x82] @ '' 1'', ''e-issn'',
       ''Tytu'' @ [CHR 0xC5, CHR 0x82] @ '' 2'', ''issn 2'', ''e-issn 2'']"
    by (simp add: METADATA_COLUMNS_def)
  with classification_fixed_metadata [OF sample_distinct sel]
    classification_fixed_metadata [OF small_distinct small_sel]
    sample_metadata small_missing sample_cat_columns
  show ?thesis by simp
qed

text \<open>The run on a table that has only \<open>issn\<close> of the nine metadata labels.\<close>

theorem missing_metadata_counterexample:
  "run_conversion \<lparr>columns = [''issn'', ''A''], rows = [[''1234-5678'', ''x'']]\<rparr> [1] =
     Inl (KeyError [''Lp.'', ''Unikatowy Identyfikator Czasopisma'',
       ''Tytu'' @ [CHR 0xC5, CHR 0x82] @ '' 1'', ''e-issn'',
       ''Tytu'' @ [CHR 0xC5, CHR 0x82] @ '' 2'', ''issn 2'', ''e-issn 2'', ''Punkty''])"
  by code_simp

text \<open>
  C5. For an aligned table with pairwise different labels and all metadata columns,
  and a valid selection: the rows of the final frame are, in order, the rows that
  pass the filter, each with the same value under every metadata column as the loaded
  row has; and every row of every sheet of the workbook has the metadata values of
  a row of the final frame.
\<close>

theorem metadata_unchanged:
  assumes "aligned df" and "distinct (columns df)"
    and "set METADATA_COLUMNS \<subseteq> set (columns df)"
    and "select_columns idxs (cat_columns df) = Inr chosen"
  shows "\<exists>fd wr. run_conversion df idxs = Inr (fd, wr) \<and>
     map (\<lambda>r. map (cell (columns fd) r) METADATA_COLUMNS) (rows fd) =
     map (\<lambda>r. map (cell (columns df) r) METADATA_COLUMNS)
       (filter (\<lambda>r. \<exists>c \<in> set chosen. marked (cell (columns df) r c)) (rows df)) \<and>
     (\<forall>wb. wr = Inr wb \<longrightarrow>
        (\<forall>sh \<in> snd ` set wb. \<forall>r \<in> set (rows sh). \<exists>r0 \<in> set (rows fd).
           map (cell (columns sh) r) METADATA_COLUMNS =
           map (cell (columns fd) r0) METADATA_COLUMNS))"
proof -
  let ?kept = "filter (\<lambda>r. \<exists>c \<in> set chosen. marked (cell (columns df) r c)) (rows df)"
  from run_conversion_final [OF assms(2,3,4)] obtain fd
    where run: "run_conversion df idxs = Inr (fd, write_workbook fd chosen)"
      and fd: "fd = \<lparr>columns = METADATA_COLUMNS @ chosen,
         rows = map (\<lambda>r. map (cell (columns df) r) (METADATA_COLUMNS @ chosen)) ?kept\<rparr>"
    by blast
  have cols: "columns fd = METADATA_COLUMNS @ chosen"
    by (simp add: fd)
  have disj: "set chosen \<inter> set METADATA_COLUMNS = {}"
    using assms(4) by (rule select_columns_disjoint)
  have "\<forall>r \<in> set ?kept. \<forall>m \<in> set METADATA_COLUMNS.
      cell (METADATA_COLUMNS @ chosen)
        (map (cell (columns df) r) (METADATA_COLUMNS @ chosen)) m = cell (columns df) r m"
    by (intro ballI final_frame_metadata)
  then have part1: "map (\<lambda>r. map (cell (columns fd) r) METADATA_COLUMNS) (rows fd) =
     map (\<lambda>r. map (cell (columns df) r) METADATA_COLUMNS) ?kept"
    by (simp add: fd comp_def)
  have part2: "\<forall>sh \<in> snd ` set wb. \<forall>r \<in> set (rows sh). \<exists>r0 \<in> set (rows fd).
           map (cell (columns sh) r) METADATA_COLUMNS =
           map (cell (columns fd) r0) METADATA_COLUMNS"
    if wb: "write_workbook fd chosen = Inr wb" for wb
  proof -
    have "distinct chosen"
      using wb cols disj by (rule write_workbook_Inr_distinct)
    with cols disj have "write_workbook fd chosen =
       Inr ((''All'', fd) # map (\<lambda>c. (take 31 c, category_sheet fd c))
                              (filter (\<lambda>c. rows_marked fd c \<noteq> []) chosen))"
      by (intro write_workbook_distinct)
    with wb have sheets: "snd ` set wb \<subseteq> insert fd (category_sheet fd ` set chosen)"
      by auto
    show ?thesis
    proof (intro ballI)
      fix sh r assume "sh \<in> snd ` set wb" and r: "r \<in> set (rows sh)"
      with sheets consider "sh = fd" | c where "sh = category_sheet fd c"
        by blast
      then show "\<exists>r0 \<in> set (rows fd).
           map (cell (columns sh) r) METADATA_COLUMNS =
           map (cell (columns fd) r0) METADATA_COLUMNS"
      proof cases
        case 1
        with r show ?thesis by blast
      next
        case 2
        with r have "r \<in> set (rows (category_sheet fd c))" by simp
        then show ?thesis unfolding 2 by (rule category_sheet_metadata)
      qed
    qed
  qed
  from run part1 part2 show ?thesis by blast
qed

theorem metadata_unchanged_witness:
  "\<exists>fd wb. run_conversion sample_table [3, 1] = Inr (fd, Inr wb) \<and>
     map fst wb = [''All'', ''C'', ''A''] \<and>
     map (\<lambda>r. map (cell (columns fd) r) METADATA_COLUMNS) (rows fd) =
       [[''1'', ''id-1'', ''Acta'', ''1111-1111'', ''nan'', ''nan'', ''nan'', ''nan'', ''100''],
        [''3'', ''id-3'', ''Czas'', ''nan'', ''nan'', ''nan'', ''nan'', ''nan'', ''brak'']]"
proof -
  have sel: "select_columns [3, 1] (cat_columns sample_table) = Inr [''C'', ''A'']"
    by (simp add: sample_cat_columns select_columns_def)
  from metadata_unchanged [OF sample_aligned sample_distinct sample_metadata sel]
  obtain fd wr where run: "run_conversion sample_table [3, 1] = Inr (fd, wr)"
    and same: "map (\<lambda>r. map (cell (columns fd) r) METADATA_COLUMNS) (rows fd) =
      map (\<lambda>r. map (cell (columns sample_table) r) METADATA_COLUMNS)
        (filter (\<lambda>r. \<exists>c \<in> set [''C'', ''A'']. marked (cell (columns sample_table) r c))
           (rows sample_table))"
    by blast
  have "map (\<lambda>r. map (cell (columns sample_table) r) METADATA_COLUMNS)
        (filter (\<lambda>r. \<exists>c \<in> set [''C'', ''A'']. marked (cell (columns sample_table) r c))
           (rows sample_table)) =
       [[''1'', ''id-1'', ''Acta'', ''1111-1111'', ''nan'', ''nan'', ''nan'', ''nan'', ''100''],
        [''3'', ''id-3'', ''Czas'', ''nan'', ''nan'', ''nan'', ''nan'', ''nan'', ''brak'']]"
    by code_simp
  with same have vals: "map (\<lambda>r. map (cell (columns fd) r) METADATA_COLUMNS) (rows fd) =
       [[''1'', ''id-1'', ''Acta'', ''1111-1111'', ''nan'', ''nan'', ''nan'', ''nan'', ''100''],
        [''3'', ''id-3'', ''Czas'', ''nan'', ''nan'', ''nan'', ''nan'', ''nan'', ''brak'']]"
    by simp
  have "(case run_conversion sample_table [3, 1] of
           Inr (fd, Inr wb) \<Rightarrow> map fst wb = [''All'', ''C'', ''A'']
         | _ \<Rightarrow> False)"
    by code_simp
  with run obtain wb where "wr = Inr wb" and "map fst wb = [''All'', ''C'', ''A'']"
    by (cases wr) auto
  with run vals show ?thesis
    by (intro exI [of _ fd] exI [of _ wb]) simp
qed

text \<open>
  C6. Selecting the first category twice on the sample table: both numbers pass the
  range check, the final frame carries the column \<open>A\<close> twice, so its labels are not
  pairwise different, and the workbook loop then fails at \<open>df_final[cat].str\<close>,
  which needs the label to occur once.
\<close>

theorem duplicate_selection_repeats_column:
  "run_conversion sample_table [1, 1] =
     Inr (\<lparr>columns = METADATA_COLUMNS @ [''A'', ''A''],
           rows = [[''1'', ''id-1'', ''Acta'', ''1111-1111'', ''nan'', ''nan'', ''nan'', ''nan'',
                    ''100'', ''x'', ''x'']]\<rparr>,
          Inl (AttributeError ''str'')) \<and>
   \<not> distinct (METADATA_COLUMNS @ [''A'', ''A''])"
  by code_simp

text \<open>
  C7. The comment of line 157 says that a sheet is created for each chosen category.
  On the sample table with the second category chosen twice, the final frame holds
  the row marked in \<open>B\<close>, and the workbook ends in the \<open>AttributeError\<close> of
  \<open>df_final[cat].str\<close> right after sheet \<open>All\<close>: no sheet for \<open>B\<close> is written.
\<close>

theorem duplicate_selection_no_sheet:
  "run_conversion sample_table [2, 2] =
     Inr (\<lparr>columns = METADATA_COLUMNS @ [''B'', ''B''],
           rows = [[''2'', ''id-2'', ''Biuletyn'', ''2222-2222'', ''nan'', ''nan'', ''nan'', ''nan'',
                    ''70'', ''  X '', ''  X '']]\<rparr>,
          Inl (AttributeError ''str'')) \<and>
   rows_marked
     \<lparr>columns = METADATA_COLUMNS @ [''B'', ''B''],
      rows = [[''2'', ''id-2'', ''Biuletyn'', ''2222-2222'', ''nan'', ''nan'', ''nan'', ''nan'',
               ''70'', ''  X '', ''  X '']]\<rparr> ''B''
   = [[''2'', ''id-2'', ''Biuletyn'', ''2222-2222'', ''nan'', ''nan'', ''nan'', ''nan'',
       ''70'', ''  X '', ''  X '']]"
  by code_simp

text \<open>
  C8. Canonicalisation to text is idempotent: the text of a cell that is already text
  is that text, for a single cell and for a whole frame converted a second time.
\<close>

theorem canonical_text_idempotent:
  "py_str (PyStr (py_str v)) = py_str v \<and>
   astype_str (as_objects (astype_str df)) = astype_str df"
  by (simp add: astype_str_def as_objects_def comp_def)

text \<open>
  C9. For the frame read from the pickle file, aligned and with the label \<open>Punkty\<close>
  once: loading succeeds, every points text that the numeric parser does not read
  becomes NaN, NaN satisfies the range test for no pair of bounds, and whatever the
  two entry fields and the category are, no row with NaN points is in the frame that
  \<open>apply_filters\<close> hands to the table.
\<close>

theorem nan_points_excluded:
  assumes "aligned pickled" and "positions (columns pickled) ''Punkty'' = [i]"
  shows "\<exists>df. load_database parse pickled = Inr df \<and>
     columns df = columns pickled \<and> length (rows df) = length (rows pickled) \<and>
     (\<forall>k < length (rows pickled).
        parse (rows pickled ! k ! i) = None \<longrightarrow> rows df ! k ! i = Number NaN) \<and>
     (\<forall>lo hi. \<not> in_range lo hi (Number NaN)) \<and>
     (\<forall>py_float min_entry max_entry cat out.
        apply_filters py_float df min_entry max_entry cat = Inr out \<longrightarrow>
        (\<forall>r \<in> set (rows out). r ! i \<noteq> Number NaN))"
proof -
  let ?df = "\<lparr>columns = columns pickled,
     rows = map (\<lambda>r. (map Text r)[i := Number (to_numeric_coerce parse (r ! i))])
              (rows pickled)\<rparr>"
  have load: "load_database parse pickled = Inr ?df"
    using assms(2) by (rule load_database_unique)
  have i: "i < length (columns pickled)"
    using assms(2) by (rule positions_less)
  have coerced: "rows ?df ! k ! i = Number NaN"
    if k: "k < length (rows pickled)" and none: "parse (rows pickled ! k ! i) = None" for k
  proof -
    from k have "rows pickled ! k \<in> set (rows pickled)" by simp
    with assms(1) have "length (rows pickled ! k) = length (columns pickled)"
      by (simp add: aligned_def list_all_iff)
    with i k none show ?thesis
      by (simp add: to_numeric_coerce_def)
  qed
  have excluded: "\<forall>r \<in> set (rows out). r ! i \<noteq> Number NaN"
    if "apply_filters py_float ?df min_entry max_entry cat = Inr out"
    for py_float min_entry max_entry cat out
  proof
    fix r assume r: "r \<in> set (rows out)"
    have "positions (columns ?df) ''Punkty'' = [i]"
      using assms(2) by simp
    from apply_filters_rows [OF this that] r obtain lo hi where "in_range lo hi (r ! i)"
      by auto
    then show "r ! i \<noteq> Number NaN"
      by (auto simp: in_range_NaN)
  qed
  from load coerced excluded show ?thesis
    by (intro exI [of _ ?df]) (simp add: in_range_NaN)
qed


theorem nan_points_excluded_witness:
  "\<exists>df. load_database (\<lambda>s. if s = ''100'' then Some (Finite 100) else None)
          \<lparr>columns = METADATA_COLUMNS @ [''C''],
           rows = [[''1'', ''id-1'', ''Acta'', ''1111-1111'', ''nan'', ''nan'', ''nan'', ''nan'',
                    ''100'', ''x''],
                   [''3'', ''id-3'', ''Czas'', ''nan'', ''nan'', ''nan'', ''nan'', ''nan'',
                    ''brak'', ''x'']]\<rparr> = Inr df \<and>
     rows df ! 0 ! 8 = Number (Finite 100) \<and>
     rows df ! 1 ! 8 = Number NaN \<and>
     (\<exists>out. apply_filters
               (\<lambda>s. if s = ''0'' then Some (Finite 0)
                    else if s = ''200'' then Some (Finite 200) else None)
               df ''0'' ''200'' ''All'' = Inr out \<and>
            map (\<lambda>r. r ! 0) (rows out) = [Text ''1''])"
proof -
  let ?parse = "\<lambda>s. if s = ''100'' then Some (Finite 100) else None"
  let ?float = "\<lambda>s. if s = ''0'' then Some (Finite 0)
                    else if s = ''200'' then Some (Finite 200) else None"
  let ?pickled = "\<lparr>columns = METADATA_COLUMNS @ [''C''],
           rows = [[''1'', ''id-1'', ''Acta'', ''1111-1111'', ''nan'', ''nan'', ''nan'', ''nan'',
                    ''100'', ''x''],
                   [''3'', ''id-3'', ''Czas'', ''nan'', ''nan'', ''nan'', ''nan'', ''nan'',
                    ''brak'', ''x'']]\<rparr>"
  have al: "aligned ?pickled"
    by (simp add: aligned_def METADATA_COLUMNS_def)
  have pos: "positions (columns ?pickled) ''Punkty'' = [8]"
    by code_simp
  from nan_points_excluded [OF al pos, of ?parse] obtain df
    where load: "load_database ?parse ?pickled = Inr df"
      and coerced: "\<forall>k < length (rows ?pickled).
        ?parse (rows ?pickled ! k ! 8) = None \<longrightarrow> rows df ! k ! 8 = Number NaN"
      and excluded: "\<forall>py_float min_entry max_entry cat out.
        apply_filters py_float df min_entry max_entry cat = Inr out \<longrightarrow>
        (\<forall>r \<in> set (rows out). r ! 8 \<noteq> Number NaN)"
    by blast
  from coerced have nan: "rows df ! 1 ! 8 = Number NaN"
    by simp
  have "(case load_database ?parse ?pickled of
           Inr df \<Rightarrow>
             rows df ! 0 ! 8 = Number (Finite 100) \<and>
             (case apply_filters ?float df ''0'' ''200'' ''All'' of
                Inr out \<Rightarrow> map (\<lambda>r. r ! 0) (rows out) = [Text ''1'']
              | Inl e \<Rightarrow> False)
         | Inl e \<Rightarrow> False)"
    by code_simp
  with load obtain out where "rows df ! 0 ! 8 = Number (Finite 100)"
    and "apply_filters ?float df ''0'' ''200'' ''All'' = Inr out"
    and "map (\<lambda>r. r ! 0) (rows out) = [Text ''1'']"
    by (auto split: sum.splits)
  with load nan show ?thesis
    by (intro exI [of _ df] conjI exI [of _ out]) simp_all
qed

text \<open>
  C10. The viewer's category filter keeps exactly the rows whose cell in the category,
  lower-cased but not stripped, is \<open>x\<close>.  It differs from the converter's test: the
  text \<open>x\<close> with blanks around it is a marker for the converter and not for the
  viewer.  On the sample table with the second category selected, the row whose cell
  is \<open>X\<close> between blanks is kept in the final frame, and after loading that frame
  the viewer's filter for the same category keeps no row.
\<close>

theorem viewer_category_not_stripped:
  "(positions (columns df) cat = [j] \<longrightarrow>
      category_filter cat df =
        Inr \<lparr>columns = columns df, rows = filter (\<lambda>r. lower_is_x (r ! j)) (rows df)\<rparr>) \<and>
   lower_is_x (Text s) = (lower s = ''x'') \<and>
   marked ''  x '' \<and> \<not> lower_is_x (Text ''  x '') \<and>
   (\<exists>fd wr vdf. run_conversion sample_table [2] = Inr (fd, wr) \<and>
      map (\<lambda>r. cell (columns fd) r ''B'') (rows fd) = [''  X ''] \<and>
      load_database parse fd = Inr vdf \<and> length (rows vdf) = 1 \<and>
      category_filter ''B'' vdf = Inr \<lparr>columns = columns vdf, rows = []\<rparr>)"
proof (intro conjI impI)
  assume "positions (columns df) cat = [j]"
  then show "category_filter cat df =
        Inr \<lparr>columns = columns df, rows = filter (\<lambda>r. lower_is_x (r ! j)) (rows df)\<rparr>"
    by (rule category_filter_unique)
next
  show "lower_is_x (Text s) = (lower s = ''x'')"
    by (simp add: lower_is_x_def)
next
  show "marked ''  x ''" by code_simp
next
  show "\<not> lower_is_x (Text ''  x '')" by code_simp
next
  let ?row = "[''2'', ''id-2'', ''Biuletyn'', ''2222-2222'', ''nan'', ''nan'', ''nan'', ''nan'',
               ''70'', ''  X '']"
  let ?fd = "\<lparr>columns = METADATA_COLUMNS @ [''B''], rows = [?row]\<rparr>"
  let ?vdf = "\<lparr>columns = columns ?fd,
     rows = map (\<lambda>r. (map Text r)[8 := Number (to_numeric_coerce parse (r ! 8))]) (rows ?fd)\<rparr>"
  have "(case run_conversion sample_table [2] of
           Inr (fd, wr) \<Rightarrow> columns fd = columns ?fd \<and> rows fd = rows ?fd
         | Inl e \<Rightarrow> False)"
    by code_simp
  then obtain fd wr where run: "run_conversion sample_table [2] = Inr (fd, wr)"
    and "columns fd = columns ?fd" and "rows fd = rows ?fd"
    by (auto split: sum.splits)
  then have fd: "fd = ?fd" by (cases fd) simp
  have kept: "map (\<lambda>r. cell (columns ?fd) r ''B'') (rows ?fd) = [''  X '']"
    by code_simp
  have "positions (columns ?fd) ''Punkty'' = [8]"
    by code_simp
  then have load: "load_database parse ?fd = Inr ?vdf"
    by (rule load_database_unique)
  have "positions (columns ?vdf) ''B'' = [9]"
    by code_simp
  then have "category_filter ''B'' ?vdf =
     Inr \<lparr>columns = columns ?vdf, rows = filter (\<lambda>r. lower_is_x (r ! 9)) (rows ?vdf)\<rparr>"
    by (rule category_filter_unique)
  moreover have "\<not> lower_is_x (Text ''  X '')"
    by code_simp
  then have "filter (\<lambda>r. lower_is_x (r ! 9)) (rows ?vdf) = []"
    by simp
  ultimately have "category_filter ''B'' ?vdf = Inr \<lparr>columns = columns ?vdf, rows = []\<rparr>"
    by simp
  with run kept load show "\<exists>fd wr vdf. run_conversion sample_table [2] = Inr (fd, wr) \<and>
      map (\<lambda>r. cell (columns fd) r ''B'') (rows fd) = [''  X ''] \<and>
      load_database parse fd = Inr vdf \<and> length (rows vdf) = 1 \<and>
      category_filter ''B'' vdf = Inr \<lparr>columns = columns vdf, rows = []\<rparr>"
    unfolding fd by (intro exI [of _ ?fd] exI [of _ wr] exI [of _ ?vdf]) simp
qed


theorem viewer_category_not_stripped_witness:
  "category_filter ''B''
     \<lparr>columns = [''Punkty'', ''B''],
      rows = [[Number (Finite 70), Text ''  X ''], [Number (Finite 40), Text ''X'']]\<rparr>
   = Inr \<lparr>columns = [''Punkty'', ''B''], rows = [[Number (Finite 40), Text ''X'']]\<rparr> \<and>
   marked ''  X '' \<and> marked ''X''"
proof -
  let ?df = "\<lparr>columns = [''Punkty'', ''B''],
      rows = [[Number (Finite 70), Text ''  X ''], [Number (Finite 40), Text ''X'']]\<rparr>"
  have pos: "positions (columns ?df) ''B'' = [1]"
    by code_simp
  have "filter (\<lambda>r. lower_is_x (r ! 1)) (rows ?df) = [[Number (Finite 40), Text ''X'']]"
    by code_simp
  moreover have "marked ''  X ''" and "marked ''X''"
    by code_simp+
  ultimately show ?thesis
    using viewer_category_not_stripped [of ?df "''B''" 1] pos by simp
qed

end
